theory Spec2Isabelle
  imports Main
begin

section \<open>Python values and strings\<close>

text \<open>
  The fields of a user and the title and body of a pull request come from JSON: each is
  a string or \<open>null\<close>. A Python \<open>str\<close> is modelled as a \<^typ>\<open>string\<close> whose
  characters are the code points below 256, so that \<^const>\<open>length\<close> is Python's
  \<open>len\<close> on such text.
\<close>

datatype pyval = PNone | PStr string

text \<open>
  What a call can raise. \<open>KeyError\<close>, \<open>TypeError\<close> and \<open>OtherException\<close> (any other
  class below \<open>Exception\<close>) are exceptions that \<open>except Exception\<close> catches;
  \<open>KeyboardInterrupt\<close> and \<open>SystemExit\<close> are below \<open>BaseException\<close> only.
\<close>

datatype py_error =
  KeyError string | TypeError | OtherException string | KeyboardInterrupt | SystemExit

text \<open>\<open>isinstance(e, Exception)\<close>.\<close>

fun is_exception :: "py_error \<Rightarrow> bool" where
  "is_exception KeyboardInterrupt = False"
| "is_exception SystemExit = False"
| "is_exception e = True"

text \<open>\<open>f"{v}"\<close>: the text an f-string puts in for a value.\<close>

fun py_format :: "pyval \<Rightarrow> string" where
  "py_format PNone = ''None''"
| "py_format (PStr s) = s"

text \<open>\<open>not v\<close>: \<open>None\<close> and the empty string are falsy.\<close>

fun py_not :: "pyval \<Rightarrow> bool" where
  "py_not PNone = True"
| "py_not (PStr s) = (s = [])"

text \<open>\<open>a + b\<close> concatenates two strings and raises \<open>TypeError\<close> on \<open>None\<close>.\<close>

fun py_add :: "pyval \<Rightarrow> pyval \<Rightarrow> py_error + pyval" where
  "py_add (PStr a) (PStr b) = Inr (PStr (a @ b))"
| "py_add _ _ = Inl TypeError"

text \<open>
  \<open>str.lower()\<close> on code points below 256: \<open>A\<close>..\<open>Z\<close> and the accented capitals
  192..222 (but the multiplication sign 215) move up by 32, every other one stays.
\<close>

definition lower_char :: "char \<Rightarrow> char" where
  "lower_char c =
     (let n = (of_char c :: nat)
      in if (65 \<le> n \<and> n \<le> 90) \<or> (192 \<le> n \<and> n \<le> 222 \<and> n \<noteq> 215)
         then char_of (n + 32) else c)"

definition lower :: "string \<Rightarrow> string" where
  "lower s = map lower_char s"

text \<open>
  The characters \<open>str.split()\<close> treats as white space, below 256: tab to carriage
  return, the four separators 28..31, the blank, NEL (133) and the no-break space (160).
\<close>

definition isspace :: "char \<Rightarrow> bool" where
  "isspace c =
     (let n = (of_char c :: nat)
      in (9 \<le> n \<and> n \<le> 13) \<or> (28 \<le> n \<and> n \<le> 32) \<or> n = 133 \<or> n = 160)"

text \<open>
  \<open>str.split()\<close> with no argument: one scan, \<open>cur\<close> the word being read; a run of
  white space ends it, and no empty word is ever produced.
\<close>

fun split_scan :: "string \<Rightarrow> string \<Rightarrow> string list" where
  "split_scan cur [] = (if cur = [] then [] else [cur])"
| "split_scan cur (c # cs) =
     (if isspace c
      then (if cur = [] then split_scan [] cs else cur # split_scan [] cs)
      else split_scan (cur @ [c]) cs)"

definition split :: "string \<Rightarrow> string list" where
  "split s = split_scan [] s"

text \<open>\<open>sep.join(xs)\<close>.\<close>

fun join :: "string \<Rightarrow> string list \<Rightarrow> string" where
  "join sep [] = []"
| "join sep [x] = x"
| "join sep (x # y # ys) = x @ sep @ join sep (y # ys)"

text \<open>
  \<open>list(set(xs))\<close>: the elements of \<open>xs\<close>, each once, in an order the runtime
  chooses (string hashing is seeded per process). \<open>list_set xs ys\<close> holds when \<open>ys\<close>
  is a list the expression can evaluate to.
\<close>

definition list_set :: "'a list \<Rightarrow> 'a list \<Rightarrow> bool" where
  "list_set xs ys = (distinct ys \<and> set ys = set xs)"

section \<open>Tag extraction\<close>

text \<open>The comprehension \<open>[f"#{word}" for word in words if len(word) > 2]\<close>.\<close>

definition hash_tags :: "string list \<Rightarrow> string list" where
  "hash_tags words = map (\<lambda>word. ''#'' @ word) (filter (\<lambda>word. length word > 2) words)"

definition extract_expertise_tags :: "pyval \<Rightarrow> string list" where
  "extract_expertise_tags bio =
     (if py_not bio then []
      else (let words = split (lower (py_format bio));
                tags = hash_tags words
            in tags))"

text \<open>
  \<open>get_pr_insights pr_title pr_body r\<close>: the call can end in \<open>r\<close>, an error raised
  or a list returned.
\<close>

definition get_pr_insights :: "pyval \<Rightarrow> pyval \<Rightarrow> py_error + string list \<Rightarrow> bool" where
  "get_pr_insights pr_title pr_body r =
     (case py_add pr_title (PStr '' '') of
        Inl e \<Rightarrow> r = Inl e
      | Inr t \<Rightarrow>
          (case py_add t pr_body of
             Inl e \<Rightarrow> r = Inl e
           | Inr text \<Rightarrow>
               (let words = split (lower (py_format text))
                in case r of
                     Inl e \<Rightarrow> False
                   | Inr ys \<Rightarrow> list_set (hash_tags words) ys)))"

text \<open>
  The algorithm of the specification's tag extractor, in its words: lowercase the text,
  split it on white space, discard the tokens of length \<open>\<le> 2\<close>, prefix each surviving
  token with \<open>#\<close>, as a set. It is what the source's functions are compared with.
\<close>

definition extract_spec :: "string \<Rightarrow> string set" where
  "extract_spec text =
     (\<lambda>token. ''#'' @ token) `
       Set.filter (\<lambda>token. \<not> length token \<le> 2) (set (split (lower text)))"

section \<open>Documents\<close>

record metadata =
  username :: pyval
  role :: pyval
  expertise :: "string list"

record document =
  page_content :: string
  metadata :: metadata

type_synonym user = "string \<rightharpoonup> pyval"

text \<open>\<open>d[k]\<close> raises \<open>KeyError\<close> on a missing key; \<open>d.get(k, default)\<close> does not.\<close>

definition dict_item :: "user \<Rightarrow> string \<Rightarrow> py_error + pyval" where
  "dict_item d k = (case d k of None \<Rightarrow> Inl (KeyError k) | Some v \<Rightarrow> Inr v)"

definition dict_get :: "user \<Rightarrow> string \<Rightarrow> pyval \<Rightarrow> pyval" where
  "dict_get d k dflt = (case d k of None \<Rightarrow> dflt | Some v \<Rightarrow> v)"

text \<open>Line 96: \<open>tags = [f"#{name}", f"#{role}"] + expertise_tags\<close>.\<close>

definition user_tags :: "pyval \<Rightarrow> pyval \<Rightarrow> string list \<Rightarrow> string list" where
  "user_tags name role' expertise_tags =
     [''#'' @ py_format name, ''#'' @ py_format role'] @ expertise_tags"

text \<open>The body of the loop of \<open>prepare_documents\<close>, for one user.\<close>

definition user_document :: "user \<Rightarrow> py_error + document" where
  "user_document u =
     (case dict_item u ''login'' of
        Inl e \<Rightarrow> Inl e
      | Inr name \<Rightarrow>
          (case dict_item u ''role'' of
             Inl e \<Rightarrow> Inl e
           | Inr role' \<Rightarrow>
               (let expertise_tags = extract_expertise_tags (dict_get u ''bio'' (PStr ''''));
                    tags = user_tags name role' expertise_tags
                in Inr \<lparr>page_content = join '' '' tags,
                        metadata = \<lparr>username = name, role = role',
                                     expertise = expertise_tags\<rparr>\<rparr>)))"

text \<open>The loop: \<open>documents\<close> grows by one document per user, and an error ends it.\<close>

fun prepare_loop :: "document list \<Rightarrow> user list \<Rightarrow> py_error + document list" where
  "prepare_loop documents [] = Inr documents"
| "prepare_loop documents (u # users) =
     (case user_document u of
        Inl e \<Rightarrow> Inl e
      | Inr doc \<Rightarrow> prepare_loop (documents @ [doc]) users)"

definition prepare_documents :: "user list \<Rightarrow> py_error + document list" where
  "prepare_documents users = prepare_loop [] users"

section \<open>The vector store\<close>

text \<open>
  \<open>FAISS.from_documents\<close> belongs to a library: it is a parameter, a function that
  returns a store or raises. What \<open>create_vector_store\<close> prints is kept beside what it
  returns or raises: \<open>except Exception\<close> catches the exceptions below \<open>Exception\<close> and
  lets the others through.
\<close>

datatype log_line = FaissInitError py_error

definition create_vector_store ::
  "(document list \<Rightarrow> py_error + 's) \<Rightarrow> document list \<Rightarrow> log_line list \<times> (py_error + 's option)"
where
  "create_vector_store from_documents documents =
     (case from_documents documents of
        Inr store \<Rightarrow> ([], Inr (Some store))
      | Inl e \<Rightarrow>
          if is_exception e then ([FaissInitError e], Inr None)
          else ([], Inl e))"

section \<open>Sample candidates\<close>

text \<open>
  Three users as \<open>fetch_github_users\<close> builds them: the role is the user type asked
  for, \<open>contributors\<close> or \<open>reviewers\<close>, and the bio is a string or \<open>null\<close>.
\<close>

definition alice :: user where
  "alice = [''login'' \<mapsto> PStr ''alice'', ''role'' \<mapsto> PStr ''contributors'',
            ''bio'' \<mapsto> PStr ''Backend Rust systems'']"

definition bob :: user where
  "bob = [''login'' \<mapsto> PStr ''bob'', ''role'' \<mapsto> PStr ''reviewers'', ''bio'' \<mapsto> PNone]"

definition carol :: user where
  "carol = [''login'' \<mapsto> PStr ''carol'', ''role'' \<mapsto> PStr ''contributors'',
            ''bio'' \<mapsto> PStr ''Carol thanks all contributors'']"

section \<open>Properties of the helpers\<close>

lemma hash_tags_mem:
  "t \<in> set (hash_tags ws) \<longleftrightarrow> (\<exists>w. w \<in> set ws \<and> 2 < length w \<and> t = CHR ''#'' # w)"
  by (auto simp: hash_tags_def)

lemma set_hash_tags:
  "set (hash_tags ws) = (\<lambda>w. ''#'' @ w) ` Set.filter (\<lambda>w. \<not> length w \<le> 2) (set ws)"
  by (auto simp: hash_tags_def)

lemma join_Cons: "join sep (x # xs) = x @ concat (map (\<lambda>t. sep @ t) xs)"
  by (induction xs arbitrary: x) simp_all

lemma list_set_remdups: "list_set xs (remdups xs)"
  by (simp add: list_set_def)

subsection \<open>\<open>get_pr_insights\<close>\<close>

lemma get_pr_insights_str:
  "get_pr_insights (PStr t) (PStr b) r \<longleftrightarrow>
     (\<exists>ys. r = Inr ys \<and> list_set (hash_tags (split (lower (t @ '' '' @ b)))) ys)"
  by (cases r) (simp_all add: get_pr_insights_def)

lemma get_pr_insights_Inr:
  "get_pr_insights pr_title pr_body (Inr ys) \<longleftrightarrow>
     (\<exists>t b. pr_title = PStr t \<and> pr_body = PStr b \<and>
        list_set (hash_tags (split (lower (t @ '' '' @ b)))) ys)"
  by (cases pr_title; cases pr_body) (auto simp: get_pr_insights_def)

lemma get_pr_insights_none:
  "pr_title = PNone \<or> pr_body = PNone \<Longrightarrow>
     get_pr_insights pr_title pr_body r \<longleftrightarrow> r = Inl TypeError"
  by (cases pr_title; cases pr_body) (auto simp: get_pr_insights_def)

text \<open>The set in \<open>get_pr_insights\<close> removes repeated tags: no list it returns has one.\<close>

lemma get_pr_insights_distinct: "get_pr_insights pr_title pr_body (Inr ys) \<Longrightarrow> distinct ys"
  by (auto simp: get_pr_insights_Inr list_set_def)

text \<open>Empty input: both functions give the empty list.\<close>

lemma extract_expertise_tags_empty:
  "extract_expertise_tags PNone = []" "extract_expertise_tags (PStr '''') = []"
  by (simp_all add: extract_expertise_tags_def)

lemma get_pr_insights_empty: "get_pr_insights (PStr '''') (PStr '''') r \<longleftrightarrow> r = Inr []"
proof -
  have "split (lower '' '') = []" by code_simp
  then show ?thesis
    by (cases r) (auto simp: get_pr_insights_def hash_tags_def list_set_def)
qed

section \<open>Tag extraction: the claims\<close>

text \<open>
  C1. Tag extraction lowercases, splits on white space, drops the tokens of length
  \<open>\<le> 2\<close>, prefixes \<open>#\<close> and removes duplicates, so that neither
  \<open>extract_expertise_tags\<close> nor \<open>get_pr_insights\<close> returns a tag twice.
  \<open>get_pr_insights\<close> does so (\<open>get_pr_insights_distinct\<close>), through its
  \<open>list(set(...))\<close>; \<open>extract_expertise_tags\<close> returns the comprehension as it is:
  on the bio \<open>rust rust\<close> the tag \<open>#rust\<close> comes back twice.
\<close>

theorem extract_expertise_tags_repeats_tag:
  "extract_expertise_tags (PStr ''rust rust'') = [''#rust'', ''#rust'']"
  by code_simp

text \<open>
  C5. Every tag that \<open>extract_expertise_tags\<close> or \<open>get_pr_insights\<close> returns starts
  with \<open>#\<close> and is at least 4 characters long.
\<close>

theorem tags_start_with_hash:
  "(\<forall>t \<in> set (extract_expertise_tags bio). take 1 t = ''#'' \<and> 4 \<le> length t) \<and>
   (\<forall>ys. get_pr_insights pr_title pr_body (Inr ys) \<longrightarrow>
      (\<forall>t \<in> set ys. take 1 t = ''#'' \<and> 4 \<le> length t))"
proof -
  have tag: "take 1 t = ''#'' \<and> 4 \<le> length t" if "t \<in> set (hash_tags ws)" for t ws
    using that by (auto simp: hash_tags_mem)
  have "take 1 t = ''#'' \<and> 4 \<le> length t" if "t \<in> set (extract_expertise_tags bio)" for t
    using that tag by (auto simp: extract_expertise_tags_def split: if_splits)
  moreover have "take 1 t = ''#'' \<and> 4 \<le> length t"
    if "get_pr_insights pr_title pr_body (Inr ys)" and "t \<in> set ys" for ys t
    using that tag by (auto simp: get_pr_insights_Inr list_set_def)
  ultimately show ?thesis by blast
qed

theorem tags_start_with_hash_witness:
  "''#rust'' \<in> set (extract_expertise_tags (PStr ''Rust is fun'')) \<and>
   get_pr_insights (PStr ''Fix rust bug'') (PStr ''in it'')
     (Inr [''#bug'', ''#fix'', ''#rust'']) \<and>
   take 1 ''#rust'' = ''#'' \<and> 4 \<le> length ''#rust'' \<and>
   take 1 ''#bug'' = ''#'' \<and> 4 \<le> length ''#bug''"
proof -
  have a: "''#rust'' \<in> set (extract_expertise_tags (PStr ''Rust is fun''))"
    by code_simp
  have b: "get_pr_insights (PStr ''Fix rust bug'') (PStr ''in it'')
             (Inr [''#bug'', ''#fix'', ''#rust''])"
    by code_simp
  have c: "''#bug'' \<in> set [''#bug'', ''#fix'', ''#rust'']"
    by simp
  note th = tags_start_with_hash [of "PStr ''Rust is fun''" "PStr ''Fix rust bug''" "PStr ''in it''"]
  from th a have "take 1 ''#rust'' = ''#'' \<and> 4 \<le> length ''#rust''"
    by blast
  moreover from th b c have "take 1 ''#bug'' = ''#'' \<and> 4 \<le> length ''#bug''"
    by blast
  ultimately show ?thesis using a b by blast
qed

text \<open>
  C6. Empty or null input gives the empty set and never an error, for
  \<open>extract_expertise_tags\<close> and for \<open>get_pr_insights\<close>. The first has the guard
  \<open>if not bio\<close> (\<open>extract_expertise_tags_empty\<close>), and the second returns the empty
  list on two empty strings (\<open>get_pr_insights_empty\<close>); but it has no guard, and
  \<open>None\<close> as title or body makes the concatenation raise \<open>TypeError\<close>.
\<close>

theorem get_pr_insights_none_raises:
  "get_pr_insights PNone PNone (Inl TypeError) \<and>
   \<not> get_pr_insights PNone PNone (Inr []) \<and>
   get_pr_insights (PStr ''fix rust bug'') PNone (Inl TypeError) \<and>
   \<not> get_pr_insights (PStr ''fix rust bug'') PNone (Inr [])"
  by (simp add: get_pr_insights_def)

text \<open>
  C8. For every title and body, \<open>get_pr_insights\<close> returns, and what it returns is, as
  a set, the tag set of the one string \<open>pr_title + " " + pr_body\<close>: that of the
  specification's algorithm, and that of \<open>extract_expertise_tags\<close> on that string.
\<close>

theorem get_pr_insights_extracts_concatenation:
  "(\<exists>ys. get_pr_insights (PStr t) (PStr b) (Inr ys)) \<and>
   (\<forall>r. get_pr_insights (PStr t) (PStr b) r \<longrightarrow>
      (\<exists>ys. r = Inr ys \<and> set ys = extract_spec (t @ '' '' @ b) \<and>
         set ys = set (extract_expertise_tags (PStr (t @ '' '' @ b)))))"
proof -
  let ?tags = "hash_tags (split (lower (t @ '' '' @ b)))"
  have ex: "get_pr_insights (PStr t) (PStr b) (Inr (remdups ?tags))"
    by (simp add: get_pr_insights_str list_set_remdups)
  have spec: "set ?tags = extract_spec (t @ '' '' @ b)"
    by (simp add: set_hash_tags extract_spec_def)
  have code: "extract_expertise_tags (PStr (t @ '' '' @ b)) = ?tags"
    by (simp add: extract_expertise_tags_def)
  have "\<exists>ys. r = Inr ys \<and> set ys = extract_spec (t @ '' '' @ b) \<and>
          set ys = set (extract_expertise_tags (PStr (t @ '' '' @ b)))"
    if "get_pr_insights (PStr t) (PStr b) r" for r
  proof -
    from that obtain ys where "r = Inr ys" and "list_set ?tags ys"
      unfolding get_pr_insights_str by blast
    then show ?thesis
      unfolding code spec [symmetric] by (simp add: list_set_def)
  qed
  with ex show ?thesis by blast
qed

theorem get_pr_insights_extracts_concatenation_witness:
  "get_pr_insights (PStr ''Fix rust bug'') (PStr ''rust is'')
     (Inr [''#bug'', ''#fix'', ''#rust'']) \<and>
   {''#bug'', ''#fix'', ''#rust''} = extract_spec ''Fix rust bug rust is''"
proof -
  have a: "get_pr_insights (PStr ''Fix rust bug'') (PStr ''rust is'')
             (Inr [''#bug'', ''#fix'', ''#rust''])"
    by code_simp
  from get_pr_insights_extracts_concatenation [of "''Fix rust bug''" "''rust is''"] a
  have "set [''#bug'', ''#fix'', ''#rust''] = extract_spec (''Fix rust bug'' @ '' '' @ ''rust is'')"
    by blast
  then show ?thesis using a by simp
qed

section \<open>The loop of \<open>prepare_documents\<close>\<close>

text \<open>The documents already collected stay in front of the ones the loop adds.\<close>

lemma prepare_loop_acc:
  "prepare_loop acc us =
     (case prepare_loop [] us of Inl e \<Rightarrow> Inl e | Inr ds \<Rightarrow> Inr (acc @ ds))"
proof (induction us arbitrary: acc)
  case Nil
  show ?case by simp
next
  case (Cons u us)
  show ?case
  proof (cases "user_document u")
    case (Inl e)
    then show ?thesis by simp
  next
    case (Inr d)
    have "prepare_loop (acc @ [d]) us =
            (case prepare_loop [] us of Inl e \<Rightarrow> Inl e | Inr ds \<Rightarrow> Inr ((acc @ [d]) @ ds))"
      by (rule Cons.IH)
    moreover have "prepare_loop [d] us =
            (case prepare_loop [] us of Inl e \<Rightarrow> Inl e | Inr ds \<Rightarrow> Inr ([d] @ ds))"
      by (rule Cons.IH)
    ultimately show ?thesis using Inr by (simp split: sum.splits)
  qed
qed

lemma prepare_documents_Nil: "prepare_documents [] = Inr []"
  by (simp add: prepare_documents_def)

lemma prepare_documents_Cons:
  "prepare_documents (u # us) =
     (case user_document u of
        Inl e \<Rightarrow> Inl e
      | Inr d \<Rightarrow> (case prepare_documents us of Inl e \<Rightarrow> Inl e | Inr ds \<Rightarrow> Inr (d # ds)))"
proof (cases "user_document u")
  case (Inl e)
  then show ?thesis by (simp add: prepare_documents_def)
next
  case (Inr d)
  then have "prepare_documents (u # us) = prepare_loop [d] us"
    by (simp add: prepare_documents_def)
  also have "\<dots> = (case prepare_loop [] us of Inl e \<Rightarrow> Inl e | Inr ds \<Rightarrow> Inr ([d] @ ds))"
    by (rule prepare_loop_acc)
  finally show ?thesis using Inr by (simp add: prepare_documents_def split: sum.splits)
qed

text \<open>The run succeeds with \<open>ds\<close> exactly when \<open>ds\<close> holds, user by user, the document
  of that user.\<close>

lemma prepare_documents_Inr_iff:
  "prepare_documents us = Inr ds \<longleftrightarrow> list_all2 (\<lambda>u d. user_document u = Inr d) us ds"
proof (induction us arbitrary: ds)
  case Nil
  show ?case by (auto simp: prepare_documents_Nil)
next
  case (Cons u us)
  have step: "prepare_documents (u # us) = Inr ds \<longleftrightarrow>
      (\<exists>d ds'. ds = d # ds' \<and> user_document u = Inr d \<and> prepare_documents us = Inr ds')"
    by (auto simp: prepare_documents_Cons split: sum.splits)
  show ?case
    unfolding step Cons.IH by (auto simp: list_all2_Cons1)
qed

lemma prepare_documents_nth:
  assumes "prepare_documents us = Inr ds"
  shows "length ds = length us" and "i < length us \<Longrightarrow> user_document (us ! i) = Inr (ds ! i)"
  using assms by (auto simp: prepare_documents_Inr_iff list_all2_conv_all_nth)

lemma prepare_documents_Inl:
  "prepare_documents us = Inl e \<Longrightarrow> \<exists>u \<in> set us. user_document u = Inl e"
proof (induction us)
  case Nil
  then show ?case by (simp add: prepare_documents_Nil)
next
  case (Cons u us)
  then show ?case
    by (auto simp: prepare_documents_Cons split: sum.splits)
qed

lemma user_document_Inr_iff:
  "user_document u = Inr d \<longleftrightarrow>
     (\<exists>name role'. u ''login'' = Some name \<and> u ''role'' = Some role' \<and>
        d = \<lparr>page_content =
               join '' '' (user_tags name role'
                 (extract_expertise_tags (dict_get u ''bio'' (PStr '''')))),
             metadata = \<lparr>username = name, role = role',
               expertise = extract_expertise_tags (dict_get u ''bio'' (PStr ''''))\<rparr>\<rparr>)"
  by (auto simp: user_document_def dict_item_def Let_def split: option.splits)

lemma user_document_Inl_iff:
  "user_document u = Inl e \<longleftrightarrow>
     (u ''login'' = None \<and> e = KeyError ''login'') \<or>
     (u ''login'' \<noteq> None \<and> u ''role'' = None \<and> e = KeyError ''role'')"
  by (auto simp: user_document_def dict_item_def Let_def split: option.splits)

lemma prepare_documents_succeeds_iff:
  "(\<exists>docs. prepare_documents users = Inr docs) \<longleftrightarrow>
     (\<forall>u \<in> set users. u ''login'' \<noteq> None \<and> u ''role'' \<noteq> None)"
proof (induction users)
  case Nil
  show ?case by (simp add: prepare_documents_Nil)
next
  case (Cons u users)
  have "(\<exists>d. user_document u = Inr d) \<longleftrightarrow> u ''login'' \<noteq> None \<and> u ''role'' \<noteq> None"
    by (auto simp: user_document_Inr_iff)
  moreover have "(\<exists>docs. prepare_documents (u # users) = Inr docs) \<longleftrightarrow>
      (\<exists>d. user_document u = Inr d) \<and> (\<exists>docs. prepare_documents users = Inr docs)"
    by (auto simp: prepare_documents_Cons split: sum.splits)
  ultimately show ?case using Cons.IH by simp
qed

text \<open>On a string, the tags of \<open>extract_expertise_tags\<close> are, as a set, the
  specification's.\<close>

lemma extract_expertise_tags_spec: "set (extract_expertise_tags (PStr s)) = extract_spec s"
proof (cases "s = []")
  case True
  have "split (lower []) = []" by (simp add: split_def lower_def)
  with True show ?thesis by (simp add: extract_expertise_tags_def extract_spec_def)
next
  case False
  then show ?thesis by (simp add: extract_expertise_tags_def extract_spec_def set_hash_tags)
qed

lemma docs_alice_bob:
  "prepare_documents [alice, bob] =
     Inr [\<lparr>page_content = ''#alice #contributors #backend #rust #systems'',
            metadata = \<lparr>username = PStr ''alice'', role = PStr ''contributors'',
                         expertise = [''#backend'', ''#rust'', ''#systems'']\<rparr>\<rparr>,
          \<lparr>page_content = ''#bob #reviewers'',
            metadata = \<lparr>username = PStr ''bob'', role = PStr ''reviewers'', expertise = []\<rparr>\<rparr>]"
  by code_simp

section \<open>Splitting a joined list\<close>

text \<open>
  Words without white space, joined by single blanks, are what \<open>split\<close> gives back;
  the tags of a bio are such words.
\<close>

lemma isspace_blank: "isspace CHR '' ''"
  by (simp add: isspace_def)

lemma not_isspace_hash: "\<not> isspace CHR ''#''"
  by (simp add: isspace_def)

lemma split_scan_word:
  "\<forall>c \<in> set w. \<not> isspace c \<Longrightarrow> split_scan cur (w @ rest) = split_scan (cur @ w) rest"
  by (induction w arbitrary: cur) simp_all

lemma split_scan_no_space:
  "w \<in> set (split_scan cur s) \<Longrightarrow> \<forall>c \<in> set cur. \<not> isspace c \<Longrightarrow> \<forall>c \<in> set w. \<not> isspace c"
proof (induction s arbitrary: cur)
  case Nil
  then show ?case by (simp split: if_splits)
next
  case (Cons a s)
  show ?case
  proof (cases "isspace a")
    case True
    with Cons.prems(1) have "w = cur \<or> w \<in> set (split_scan [] s)"
      by (simp split: if_splits)
    then show ?thesis
    proof
      assume "w = cur"
      with Cons.prems(2) show ?thesis by simp
    next
      assume "w \<in> set (split_scan [] s)"
      then show ?thesis by (rule Cons.IH) simp
    qed
  next
    case False
    with Cons.prems(1) have "w \<in> set (split_scan (cur @ [a]) s)"
      by simp
    then show ?thesis
      by (rule Cons.IH) (use False Cons.prems(2) in simp)
  qed
qed

lemma split_no_space: "w \<in> set (split s) \<Longrightarrow> \<forall>c \<in> set w. \<not> isspace c"
  using split_scan_no_space [of w "[]" s] by (simp add: split_def)

lemma split_join:
  "\<forall>t \<in> set ts. t \<noteq> [] \<and> (\<forall>c \<in> set t. \<not> isspace c) \<Longrightarrow> split (join '' '' ts) = ts"
proof (induction ts)
  case Nil
  show ?case by (simp add: split_def)
next
  case (Cons x xs)
  then have x: "x \<noteq> []" and nx: "\<forall>c \<in> set x. \<not> isspace c"
    and rest: "split (join '' '' xs) = xs"
    by simp_all
  show ?case
  proof (cases xs)
    case Nil
    have "split_scan [] (x @ []) = split_scan ([] @ x) []"
      using nx by (rule split_scan_word)
    with x Nil show ?thesis by (simp add: split_def)
  next
    case (Cons y ys)
    have "split_scan [] (x @ ('' '' @ join '' '' xs)) = split_scan ([] @ x) ('' '' @ join '' '' xs)"
      using nx by (rule split_scan_word)
    also have "\<dots> = x # split_scan [] (join '' '' xs)"
      using x by (simp add: isspace_blank)
    finally show ?thesis using rest Cons by (simp add: split_def)
  qed
qed

lemma extract_expertise_tags_tokens:
  assumes "t \<in> set (extract_expertise_tags bio)"
  shows "t \<noteq> [] \<and> (\<forall>c \<in> set t. \<not> isspace c)"
proof -
  from assms obtain w where w: "w \<in> set (split (lower (py_format bio)))" and t: "t = CHR ''#'' # w"
    by (auto simp: extract_expertise_tags_def hash_tags_mem split: if_splits)
  from w have "\<forall>c \<in> set w. \<not> isspace c"
    by (rule split_no_space)
  with t show ?thesis by (simp add: not_isspace_hash)
qed

lemma user_tags_tokens:
  assumes "\<forall>c \<in> set (py_format name). \<not> isspace c" and "\<forall>c \<in> set (py_format role'). \<not> isspace c"
    and "t \<in> set (user_tags name role' (extract_expertise_tags bio))"
  shows "t \<noteq> [] \<and> (\<forall>c \<in> set t. \<not> isspace c)"
proof -
  from assms(3) consider "t = CHR ''#'' # py_format name" | "t = CHR ''#'' # py_format role'"
    | "t \<in> set (extract_expertise_tags bio)"
    by (auto simp: user_tags_def)
  then show ?thesis
  proof cases
    case 1
    with assms(1) show ?thesis by (simp add: not_isspace_hash)
  next
    case 2
    with assms(2) show ?thesis by (simp add: not_isspace_hash)
  next
    case 3
    then show ?thesis by (rule extract_expertise_tags_tokens)
  qed
qed

lemma split_page_content:
  assumes "\<forall>c \<in> set (py_format name). \<not> isspace c" and "\<forall>c \<in> set (py_format role'). \<not> isspace c"
  shows "split (join '' '' (user_tags name role' (extract_expertise_tags bio))) =
           user_tags name role' (extract_expertise_tags bio)"
  using user_tags_tokens [OF assms] by (intro split_join) blast

section \<open>Documents: the claims\<close>

text \<open>
  C2. Building the profile of a candidate whose name or role is empty fails with
  \<open>InvalidCandidate\<close>. The source has no such check and no such error:
  \<open>prepare_documents\<close> looks at the keys only. As amended: it succeeds, with one
  document per user, exactly when every user has the keys \<open>login\<close> and \<open>role\<close>,
  whatever their values, the empty string included; when it fails, the error is the
  \<open>KeyError\<close> of a missing \<open>login\<close> or \<open>role\<close>.
\<close>

theorem prepare_documents_checks_keys_only:
  "((\<exists>docs. prepare_documents users = Inr docs \<and> length docs = length users) \<longleftrightarrow>
      (\<forall>u \<in> set users. u ''login'' \<noteq> None \<and> u ''role'' \<noteq> None)) \<and>
   (\<forall>e. prepare_documents users = Inl e \<longrightarrow> e = KeyError ''login'' \<or> e = KeyError ''role'')"
proof -
  have "(\<exists>docs. prepare_documents users = Inr docs \<and> length docs = length users) \<longleftrightarrow>
      (\<exists>docs. prepare_documents users = Inr docs)"
    using prepare_documents_nth(1) by blast
  moreover have "e = KeyError ''login'' \<or> e = KeyError ''role''"
    if "prepare_documents users = Inl e" for e
    using prepare_documents_Inl [OF that] by (auto simp: user_document_Inl_iff)
  ultimately show ?thesis
    using prepare_documents_succeeds_iff [of users] by blast
qed

theorem prepare_documents_checks_keys_only_witness:
  "\<exists>docs. prepare_documents [[''login'' \<mapsto> PStr '''', ''role'' \<mapsto> PStr ''reviewers''],
                             [''login'' \<mapsto> PStr ''bob'', ''role'' \<mapsto> PStr '''']] = Inr docs
      \<and> length docs = 2"
proof -
  let ?users = "[[''login'' \<mapsto> PStr '''', ''role'' \<mapsto> PStr ''reviewers''],
                 [''login'' \<mapsto> PStr ''bob'', ''role'' \<mapsto> PStr '''']]"
  have "\<forall>u \<in> set ?users. u ''login'' \<noteq> None \<and> u ''role'' \<noteq> None"
    by simp
  with prepare_documents_checks_keys_only [of ?users]
  have "\<exists>docs. prepare_documents ?users = Inr docs \<and> length docs = length ?users"
    by blast
  then show ?thesis by (simp add: numeral_2_eq_2)
qed

text \<open>A user whose login and role are both the empty string gets a document.\<close>

theorem empty_login_and_role_get_document:
  "prepare_documents
     [[''login'' \<mapsto> PStr '''', ''role'' \<mapsto> PStr '''', ''bio'' \<mapsto> PStr ''rust'']] =
     Inr [\<lparr>page_content = ''# # #rust'',
           metadata = \<lparr>username = PStr '''', role = PStr '''', expertise = [''#rust'']\<rparr>\<rparr>]"
  by code_simp

text \<open>
  C4. The tags of a user's document are \<open>{"#"+name, "#"+role} \<union> extract(bio)\<close>: the
  list \<open>tags\<close> that \<open>prepare_documents\<close> joins into the page content holds
  \<open>"#"+login\<close>, \<open>"#"+role\<close> and every tag extracted from the bio, and nothing else;
  for a bio that is a string, the extracted tags are those of the specification's
  algorithm.
\<close>

theorem document_tags:
  assumes "prepare_documents users = Inr docs" and "i < length users"
    and "(users ! i) ''login'' = Some name" and "(users ! i) ''role'' = Some role'"
    and "bio = dict_get (users ! i) ''bio'' (PStr '''')"
  shows "page_content (docs ! i) = join '' '' (user_tags name role' (extract_expertise_tags bio)) \<and>
         set (user_tags name role' (extract_expertise_tags bio)) =
           {''#'' @ py_format name, ''#'' @ py_format role'} \<union> set (extract_expertise_tags bio) \<and>
         (\<forall>s. bio = PStr s \<longrightarrow>
            set (user_tags name role' (extract_expertise_tags bio)) =
              {''#'' @ py_format name, ''#'' @ py_format role'} \<union> extract_spec s)"
proof -
  from assms(1,2) have "user_document (users ! i) = Inr (docs ! i)"
    by (rule prepare_documents_nth(2))
  with assms(3,4,5)
  have "page_content (docs ! i) = join '' '' (user_tags name role' (extract_expertise_tags bio))"
    by (auto simp: user_document_Inr_iff)
  moreover have tags: "set (user_tags name role' (extract_expertise_tags bio)) =
      {''#'' @ py_format name, ''#'' @ py_format role'} \<union> set (extract_expertise_tags bio)"
    by (auto simp: user_tags_def)
  moreover have "set (user_tags name role' (extract_expertise_tags bio)) =
      {''#'' @ py_format name, ''#'' @ py_format role'} \<union> extract_spec s" if "bio = PStr s" for s
    using tags that by (simp add: extract_expertise_tags_spec)
  ultimately show ?thesis by blast
qed

theorem document_tags_witness:
  "''#alice #contributors #backend #rust #systems'' =
     join '' '' (user_tags (PStr ''alice'') (PStr ''contributors'')
                  (extract_expertise_tags (PStr ''Backend Rust systems''))) \<and>
   set (user_tags (PStr ''alice'') (PStr ''contributors'')
          (extract_expertise_tags (PStr ''Backend Rust systems''))) =
     {''#alice'', ''#contributors''} \<union> extract_spec ''Backend Rust systems''"
proof -
  have i: "(0::nat) < length [alice, bob]"
    by simp
  have login: "([alice, bob] ! 0) ''login'' = Some (PStr ''alice'')"
    and role: "([alice, bob] ! 0) ''role'' = Some (PStr ''contributors'')"
    and bio: "PStr ''Backend Rust systems'' = dict_get ([alice, bob] ! 0) ''bio'' (PStr '''')"
    by (simp_all add: alice_def dict_get_def)
  note th = document_tags [OF docs_alice_bob i login role bio]
  from th have "set (user_tags (PStr ''alice'') (PStr ''contributors'')
          (extract_expertise_tags (PStr ''Backend Rust systems''))) =
     {''#'' @ py_format (PStr ''alice''), ''#'' @ py_format (PStr ''contributors'')} \<union>
       extract_spec ''Backend Rust systems''"
    by blast
  moreover from th have "''#alice #contributors #backend #rust #systems'' =
     join '' '' (user_tags (PStr ''alice'') (PStr ''contributors'')
                  (extract_expertise_tags (PStr ''Backend Rust systems'')))"
    by simp
  ultimately show ?thesis by simp
qed

text \<open>
  C7. The page content of a user's document is its tags joined by single blanks, in one
  fixed order. The tags of the claim are the tag set of a profile; what the source joins
  is the list \<open>tags\<close>, which is not a set: a bio that has the login or the role as a
  word gives the name tag or the role tag a second time. As amended, for a bio that
  repeats no word of more than 2 characters: the page content is the list
  \<open>["#"+login, "#"+role] + extract_expertise_tags(bio)\<close> joined by single blanks, in
  that order; the elements of the list are the tag set; each tag stands once exactly
  when login and role differ and the bio has neither as a tag; and for a login and a
  role without white space, splitting the page content gives the list back.
\<close>

theorem page_content_joins_tag_list:
  assumes "prepare_documents users = Inr docs" and "i < length users"
    and "(users ! i) ''login'' = Some name" and "(users ! i) ''role'' = Some role'"
    and "bio = dict_get (users ! i) ''bio'' (PStr '''')"
    and "tags = [''#'' @ py_format name, ''#'' @ py_format role'] @ extract_expertise_tags bio"
    and "distinct (extract_expertise_tags bio)"
  shows "page_content (docs ! i) = join '' '' tags \<and>
         set tags = {''#'' @ py_format name, ''#'' @ py_format role'} \<union>
                    set (extract_expertise_tags bio) \<and>
         (distinct tags \<longleftrightarrow>
            py_format name \<noteq> py_format role' \<and>
            ''#'' @ py_format name \<notin> set (extract_expertise_tags bio) \<and>
            ''#'' @ py_format role' \<notin> set (extract_expertise_tags bio)) \<and>
         ((\<forall>c \<in> set (py_format name @ py_format role'). \<not> isspace c) \<longrightarrow>
            split (page_content (docs ! i)) = tags)"
proof -
  have tags: "tags = user_tags name role' (extract_expertise_tags bio)"
    by (simp add: assms(6) user_tags_def)
  have "user_document (users ! i) = Inr (docs ! i)"
    using assms(1,2) by (rule prepare_documents_nth(2))
  with assms(3,4,5) have page: "page_content (docs ! i) = join '' '' tags"
    unfolding tags by (auto simp: user_document_Inr_iff)
  have elems: "set tags = {''#'' @ py_format name, ''#'' @ py_format role'} \<union>
                    set (extract_expertise_tags bio)"
    by (auto simp: assms(6))
  have once: "distinct tags \<longleftrightarrow>
            py_format name \<noteq> py_format role' \<and>
            ''#'' @ py_format name \<notin> set (extract_expertise_tags bio) \<and>
            ''#'' @ py_format role' \<notin> set (extract_expertise_tags bio)"
    using assms(7) by (auto simp: assms(6))
  have "split (page_content (docs ! i)) = tags"
    if "\<forall>c \<in> set (py_format name @ py_format role'). \<not> isspace c"
  proof -
    from that have "\<forall>c \<in> set (py_format name). \<not> isspace c"
      and "\<forall>c \<in> set (py_format role'). \<not> isspace c"
      by simp_all
    then show ?thesis
      unfolding page tags by (rule split_page_content)
  qed
  with page elems once show ?thesis by blast
qed

theorem page_content_joins_tag_list_witness:
  "split ''#alice #contributors #backend #rust #systems'' =
     [''#alice'', ''#contributors'', ''#backend'', ''#rust'', ''#systems''] \<and>
   distinct [''#alice'', ''#contributors'', ''#backend'', ''#rust'', ''#systems'']"
proof -
  let ?ex = "extract_expertise_tags (PStr ''Backend Rust systems'')"
  let ?tags = "[''#'' @ py_format (PStr ''alice''), ''#'' @ py_format (PStr ''contributors'')] @ ?ex"
  have i: "(0::nat) < length [alice, bob]"
    by simp
  have login: "([alice, bob] ! 0) ''login'' = Some (PStr ''alice'')"
    and role: "([alice, bob] ! 0) ''role'' = Some (PStr ''contributors'')"
    and bio: "PStr ''Backend Rust systems'' = dict_get ([alice, bob] ! 0) ''bio'' (PStr '''')"
    by (simp_all add: alice_def dict_get_def)
  have ex: "?ex = [''#backend'', ''#rust'', ''#systems'']"
    by code_simp
  have tags: "?tags = [''#alice'', ''#contributors'', ''#backend'', ''#rust'', ''#systems'']"
    unfolding ex by simp
  have dist: "distinct ?ex"
    by code_simp
  have nospace: "\<forall>c \<in> set (py_format (PStr ''alice'') @ py_format (PStr ''contributors'')). \<not> isspace c"
    by code_simp
  have absent: "py_format (PStr ''alice'') \<noteq> py_format (PStr ''contributors'') \<and>
      ''#'' @ py_format (PStr ''alice'') \<notin> set ?ex \<and>
      ''#'' @ py_format (PStr ''contributors'') \<notin> set ?ex"
    by code_simp
  have page: "page_content ([\<lparr>page_content = ''#alice #contributors #backend #rust #systems'',
            metadata = \<lparr>username = PStr ''alice'', role = PStr ''contributors'',
                         expertise = [''#backend'', ''#rust'', ''#systems'']\<rparr>\<rparr>,
          \<lparr>page_content = ''#bob #reviewers'',
            metadata = \<lparr>username = PStr ''bob'', role = PStr ''reviewers'', expertise = []\<rparr>\<rparr>] ! 0) =
        ''#alice #contributors #backend #rust #systems''"
    by simp
  note th = page_content_joins_tag_list [OF docs_alice_bob i login role bio refl dist]
  from th nospace have "split (page_content ([\<lparr>page_content = ''#alice #contributors #backend #rust #systems'',
            metadata = \<lparr>username = PStr ''alice'', role = PStr ''contributors'',
                         expertise = [''#backend'', ''#rust'', ''#systems'']\<rparr>\<rparr>,
          \<lparr>page_content = ''#bob #reviewers'',
            metadata = \<lparr>username = PStr ''bob'', role = PStr ''reviewers'', expertise = []\<rparr>\<rparr>] ! 0)) = ?tags"
    by blast
  then have a: "split ''#alice #contributors #backend #rust #systems'' =
      [''#alice'', ''#contributors'', ''#backend'', ''#rust'', ''#systems'']"
    unfolding page tags .
  from th absent have "distinct ?tags"
    by blast
  then have b: "distinct [''#alice'', ''#contributors'', ''#backend'', ''#rust'', ''#systems'']"
    unfolding tags .
  from a b show ?thesis ..
qed

text \<open>
  The page content of \<open>carol\<close> has six tags where her tag set has four: it is no
  joining of the set, in any order.
\<close>

theorem page_content_repeats_name_and_role_tag:
  "prepare_documents [carol] =
     Inr [\<lparr>page_content = ''#carol #contributors #carol #thanks #all #contributors'',
            metadata = \<lparr>username = PStr ''carol'', role = PStr ''contributors'',
                         expertise = [''#carol'', ''#thanks'', ''#all'', ''#contributors'']\<rparr>\<rparr>] \<and>
   \<not> (\<exists>ts. distinct ts \<and>
          set ts = {''#carol'', ''#contributors''} \<union>
                   set (extract_expertise_tags (PStr ''Carol thanks all contributors'')) \<and>
          ''#carol #contributors #carol #thanks #all #contributors'' = join '' '' ts)"
proof (rule conjI)
  show "prepare_documents [carol] =
     Inr [\<lparr>page_content = ''#carol #contributors #carol #thanks #all #contributors'',
            metadata = \<lparr>username = PStr ''carol'', role = PStr ''contributors'',
                         expertise = [''#carol'', ''#thanks'', ''#all'', ''#contributors'']\<rparr>\<rparr>]"
    by code_simp
next
  have ex: "extract_expertise_tags (PStr ''Carol thanks all contributors'') =
              [''#carol'', ''#thanks'', ''#all'', ''#contributors'']"
    by code_simp
  have tokens: "split ''#carol #contributors #carol #thanks #all #contributors'' =
      [''#carol'', ''#contributors'', ''#carol'', ''#thanks'', ''#all'', ''#contributors'']"
    by code_simp
  have words: "\<forall>t \<in> {''#carol'', ''#contributors''} \<union>
                 set [''#carol'', ''#thanks'', ''#all'', ''#contributors''].
                 t \<noteq> [] \<and> (\<forall>c \<in> set t. \<not> isspace c)"
    by code_simp
  have rep: "\<not> distinct [''#carol'', ''#contributors'', ''#carol'', ''#thanks'', ''#all'', ''#contributors'']"
    by code_simp
  show "\<not> (\<exists>ts. distinct ts \<and>
          set ts = {''#carol'', ''#contributors''} \<union>
                   set (extract_expertise_tags (PStr ''Carol thanks all contributors'')) \<and>
          ''#carol #contributors #carol #thanks #all #contributors'' = join '' '' ts)"
  proof
    assume "\<exists>ts. distinct ts \<and>
          set ts = {''#carol'', ''#contributors''} \<union>
                   set (extract_expertise_tags (PStr ''Carol thanks all contributors'')) \<and>
          ''#carol #contributors #carol #thanks #all #contributors'' = join '' '' ts"
    then obtain ts where dist: "distinct ts"
      and elems: "set ts = {''#carol'', ''#contributors''} \<union>
                   set (extract_expertise_tags (PStr ''Carol thanks all contributors''))"
      and page: "''#carol #contributors #carol #thanks #all #contributors'' = join '' '' ts"
      by blast
    from words have "\<forall>t \<in> set ts. t \<noteq> [] \<and> (\<forall>c \<in> set t. \<not> isspace c)"
      unfolding elems ex .
    then have "split (join '' '' ts) = ts"
      by (rule split_join)
    then have ts: "ts = split ''#carol #contributors #carol #thanks #all #contributors''"
      unfolding page [symmetric] by (rule sym)
    from dist
    have "distinct [''#carol'', ''#contributors'', ''#carol'', ''#thanks'', ''#all'', ''#contributors'']"
      unfolding ts tokens .
    with rep show False
      by (rule notE)
  qed
qed

text \<open>
  C9. For users that all carry \<open>login\<close> and \<open>role\<close>, \<open>prepare_documents\<close> returns one
  document per user, in the order of the users, and a bio that is empty, \<open>None\<close> or
  absent makes no failure: that user's document has no expertise tag, and its tags are
  \<open>"#"+login\<close> and \<open>"#"+role\<close> only.
\<close>

theorem prepare_documents_one_per_user:
  assumes "\<forall>u \<in> set users. u ''login'' \<noteq> None \<and> u ''role'' \<noteq> None"
  shows "\<exists>docs. prepare_documents users = Inr docs \<and> length docs = length users \<and>
           (\<forall>i < length users.
              (users ! i) ''login'' = Some (username (metadata (docs ! i))) \<and>
              (users ! i) ''role'' = Some (role (metadata (docs ! i))) \<and>
              ((users ! i) ''bio'' \<in> {None, Some PNone, Some (PStr '''')} \<longrightarrow>
                 expertise (metadata (docs ! i)) = [] \<and>
                 page_content (docs ! i) =
                   join '' '' [''#'' @ py_format (username (metadata (docs ! i))),
                              ''#'' @ py_format (role (metadata (docs ! i)))]))"
proof -
  from assms obtain docs where docs: "prepare_documents users = Inr docs"
    using prepare_documents_succeeds_iff [of users] by blast
  have len: "length docs = length users"
    using docs by (rule prepare_documents_nth(1))
  have "(users ! i) ''login'' = Some (username (metadata (docs ! i))) \<and>
        (users ! i) ''role'' = Some (role (metadata (docs ! i))) \<and>
        ((users ! i) ''bio'' \<in> {None, Some PNone, Some (PStr '''')} \<longrightarrow>
           expertise (metadata (docs ! i)) = [] \<and>
           page_content (docs ! i) =
             join '' '' [''#'' @ py_format (username (metadata (docs ! i))),
                        ''#'' @ py_format (role (metadata (docs ! i)))])"
    if "i < length users" for i
  proof -
    have doc: "user_document (users ! i) = Inr (docs ! i)"
      using docs that by (rule prepare_documents_nth(2))
    have "extract_expertise_tags (dict_get (users ! i) ''bio'' (PStr '''')) = []"
      if "(users ! i) ''bio'' \<in> {None, Some PNone, Some (PStr '''')}"
      using that by (auto simp: dict_get_def extract_expertise_tags_def)
    with doc show ?thesis
      by (auto simp: user_document_Inr_iff user_tags_def)
  qed
  with docs len show ?thesis by blast
qed

theorem prepare_documents_one_per_user_witness:
  "\<exists>docs. prepare_documents [alice, bob] = Inr docs \<and> length docs = 2 \<and>
      expertise (metadata (docs ! 1)) = [] \<and> page_content (docs ! 1) = ''#bob #reviewers''"
proof -
  have keys: "\<forall>u \<in> set [alice, bob]. u ''login'' \<noteq> None \<and> u ''role'' \<noteq> None"
    by (simp add: alice_def bob_def)
  have i: "(1::nat) < length [alice, bob]"
    by simp
  have bio: "([alice, bob] ! 1) ''bio'' \<in> {None, Some PNone, Some (PStr '''')}"
    by (simp add: bob_def)
  have login: "([alice, bob] ! 1) ''login'' = Some (PStr ''bob'')"
    and role: "([alice, bob] ! 1) ''role'' = Some (PStr ''reviewers'')"
    by (simp_all add: bob_def)
  from prepare_documents_one_per_user [OF keys] obtain docs
    where run: "prepare_documents [alice, bob] = Inr docs"
      and len: "length docs = length [alice, bob]"
      and each: "\<forall>i < length [alice, bob].
              ([alice, bob] ! i) ''login'' = Some (username (metadata (docs ! i))) \<and>
              ([alice, bob] ! i) ''role'' = Some (role (metadata (docs ! i))) \<and>
              (([alice, bob] ! i) ''bio'' \<in> {None, Some PNone, Some (PStr '''')} \<longrightarrow>
                 expertise (metadata (docs ! i)) = [] \<and>
                 page_content (docs ! i) =
                   join '' '' [''#'' @ py_format (username (metadata (docs ! i))),
                              ''#'' @ py_format (role (metadata (docs ! i)))])"
    by blast
  from each i bio login role
  have "username (metadata (docs ! 1)) = PStr ''bob''"
    and "role (metadata (docs ! 1)) = PStr ''reviewers''"
    and "expertise (metadata (docs ! 1)) = []"
    and "page_content (docs ! 1) =
           join '' '' [''#'' @ py_format (username (metadata (docs ! 1))),
                      ''#'' @ py_format (role (metadata (docs ! 1)))]"
    by auto
  then have "expertise (metadata (docs ! 1)) = [] \<and> page_content (docs ! 1) = ''#bob #reviewers''"
    by simp
  with run len show ?thesis
    by (auto simp: numeral_2_eq_2)
qed

text \<open>
  C10. The metadata of a user's document holds \<open>username = login\<close>, \<open>role = role\<close> and
  \<open>expertise = extract_expertise_tags(bio)\<close>; the name tag and the role tag stand in
  the page content, in front of the expertise tags. As amended: they are not added to the
  expertise list, which holds one of them exactly when the bio itself has the login
  (the role) as a word of more than 2 characters, once lowercased.
\<close>

theorem document_metadata:
  assumes "prepare_documents users = Inr docs" and "i < length users"
    and "bio = dict_get (users ! i) ''bio'' (PStr '''')"
  shows "\<exists>name role'.
           (users ! i) ''login'' = Some name \<and> (users ! i) ''role'' = Some role' \<and>
           metadata (docs ! i) =
             \<lparr>username = name, role = role', expertise = extract_expertise_tags bio\<rparr> \<and>
           page_content (docs ! i) =
             join '' '' ([''#'' @ py_format name, ''#'' @ py_format role'] @
                          expertise (metadata (docs ! i))) \<and>
           (''#'' @ py_format name \<in> set (expertise (metadata (docs ! i))) \<longleftrightarrow>
              \<not> py_not bio \<and> 2 < length (py_format name) \<and>
              py_format name \<in> set (split (lower (py_format bio)))) \<and>
           (''#'' @ py_format role' \<in> set (expertise (metadata (docs ! i))) \<longleftrightarrow>
              \<not> py_not bio \<and> 2 < length (py_format role') \<and>
              py_format role' \<in> set (split (lower (py_format bio))))"
proof -
  have doc: "user_document (users ! i) = Inr (docs ! i)"
    using assms(1,2) by (rule prepare_documents_nth(2))
  then obtain name role' where login: "(users ! i) ''login'' = Some name"
    and role: "(users ! i) ''role'' = Some role'"
    and d: "docs ! i =
      \<lparr>page_content = join '' '' (user_tags name role' (extract_expertise_tags bio)),
       metadata = \<lparr>username = name, role = role', expertise = extract_expertise_tags bio\<rparr>\<rparr>"
    unfolding user_document_Inr_iff assms(3) by blast
  have mem: "''#'' @ w \<in> set (extract_expertise_tags bio) \<longleftrightarrow>
      \<not> py_not bio \<and> 2 < length w \<and> w \<in> set (split (lower (py_format bio)))" for w
    by (auto simp: extract_expertise_tags_def hash_tags_mem)
  have meta: "metadata (docs ! i) =
      \<lparr>username = name, role = role', expertise = extract_expertise_tags bio\<rparr>"
    by (simp add: d)
  have page: "page_content (docs ! i) =
      join '' '' ([''#'' @ py_format name, ''#'' @ py_format role'] @
                   expertise (metadata (docs ! i)))"
    by (simp add: d user_tags_def)
  have exp: "expertise (metadata (docs ! i)) = extract_expertise_tags bio"
    by (simp add: d)
  show ?thesis
    using login role meta page mem [of "py_format name"] mem [of "py_format role'"]
    unfolding exp by blast
qed

theorem document_metadata_witness:
  "''carol'' \<in> set (split (lower ''Carol thanks all contributors'')) \<and>
   ''#carol'' \<in> set [''#carol'', ''#thanks'', ''#all'', ''#contributors''] \<and>
   ''#carol #contributors #carol #thanks #all #contributors'' =
     join '' '' ([''#carol'', ''#contributors''] @
                  [''#carol'', ''#thanks'', ''#all'', ''#contributors''])"
proof -
  let ?d = "\<lparr>page_content = ''#carol #contributors #carol #thanks #all #contributors'',
            metadata = \<lparr>username = PStr ''carol'', role = PStr ''contributors'',
                         expertise = [''#carol'', ''#thanks'', ''#all'', ''#contributors'']\<rparr>\<rparr>"
  have run: "prepare_documents [carol] = Inr [?d]"
    by code_simp
  have i: "(0::nat) < length [carol]"
    by simp
  have bio: "PStr ''Carol thanks all contributors'' = dict_get ([carol] ! 0) ''bio'' (PStr '''')"
    by (simp add: carol_def dict_get_def)
  have word: "''carol'' \<in> set (split (lower ''Carol thanks all contributors''))"
    by code_simp
  from document_metadata [OF run i bio] obtain name role'
    where login: "([carol] ! 0) ''login'' = Some name"
      and role: "([carol] ! 0) ''role'' = Some role'"
      and page: "page_content ([?d] ! 0) =
             join '' '' ([''#'' @ py_format name, ''#'' @ py_format role'] @
                          expertise (metadata ([?d] ! 0)))"
      and tag: "''#'' @ py_format name \<in> set (expertise (metadata ([?d] ! 0))) \<longleftrightarrow>
              \<not> py_not (PStr ''Carol thanks all contributors'') \<and> 2 < length (py_format name) \<and>
              py_format name \<in> set (split (lower (py_format (PStr ''Carol thanks all contributors''))))"
    by blast
  from login have name: "name = PStr ''carol''"
    by (simp add: carol_def)
  from role have role': "role' = PStr ''contributors''"
    by (simp add: carol_def)
  from tag word have "''#carol'' \<in> set [''#carol'', ''#thanks'', ''#all'', ''#contributors'']"
    unfolding name by simp
  moreover from page have "''#carol #contributors #carol #thanks #all #contributors'' =
     join '' '' ([''#carol'', ''#contributors''] @
                  [''#carol'', ''#thanks'', ''#all'', ''#contributors''])"
    unfolding name role' by simp
  ultimately show ?thesis using word by blast
qed

text \<open>
  The bio of \<open>carol\<close> has her login and her role among its words: both tags are in the
  expertise list of her document.
\<close>

theorem bio_words_give_name_and_role_tags:
  "prepare_documents [carol] =
     Inr [\<lparr>page_content = ''#carol #contributors #carol #thanks #all #contributors'',
            metadata = \<lparr>username = PStr ''carol'', role = PStr ''contributors'',
                         expertise = [''#carol'', ''#thanks'', ''#all'', ''#contributors'']\<rparr>\<rparr>]"
  by code_simp

section \<open>The vector store: the claim\<close>

text \<open>
  C3. When the build of the vector store raises, \<open>create_vector_store\<close> passes the
  failure on to its caller. The source does the opposite, in a \<open>try\<close> block of its
  own. As amended: when the build raises an \<open>Exception\<close>, \<open>create_vector_store\<close>
  prints the error and returns \<open>None\<close>, and it returns \<open>None\<close> in no other case;
  only what is no \<open>Exception\<close> (\<open>KeyboardInterrupt\<close>, \<open>SystemExit\<close>) reaches the
  caller, with nothing printed; on success it returns the store that was built and
  prints nothing.
\<close>

theorem create_vector_store_returns_none_on_failure:
  "(\<forall>store. from_documents documents = Inr store \<longrightarrow>
      create_vector_store from_documents documents = ([], Inr (Some store))) \<and>
   (\<forall>e. from_documents documents = Inl e \<and> is_exception e \<longrightarrow>
      create_vector_store from_documents documents = ([FaissInitError e], Inr None)) \<and>
   (\<forall>e. from_documents documents = Inl e \<and> \<not> is_exception e \<longrightarrow>
      create_vector_store from_documents documents = ([], Inl e)) \<and>
   (snd (create_vector_store from_documents documents) = Inr None \<longleftrightarrow>
      (\<exists>e. from_documents documents = Inl e \<and> is_exception e))"
proof (intro conjI allI impI)
  fix store
  assume "from_documents documents = Inr store"
  then show "create_vector_store from_documents documents = ([], Inr (Some store))"
    by (simp add: create_vector_store_def)
next
  fix e
  assume "from_documents documents = Inl e \<and> is_exception e"
  then show "create_vector_store from_documents documents = ([FaissInitError e], Inr None)"
    by (simp add: create_vector_store_def)
next
  fix e
  assume "from_documents documents = Inl e \<and> \<not> is_exception e"
  then show "create_vector_store from_documents documents = ([], Inl e)"
    by (simp add: create_vector_store_def)
next
  show "snd (create_vector_store from_documents documents) = Inr None \<longleftrightarrow>
      (\<exists>e. from_documents documents = Inl e \<and> is_exception e)"
    by (cases "from_documents documents") (simp_all add: create_vector_store_def)
qed

theorem create_vector_store_returns_none_on_failure_witness:
  "create_vector_store (\<lambda>documents. Inr (length documents)) [] = ([], Inr (Some 0)) \<and>
   create_vector_store (\<lambda>documents. Inl TypeError :: py_error + nat) [] =
     ([FaissInitError TypeError], Inr None) \<and>
   create_vector_store (\<lambda>documents. Inl KeyboardInterrupt :: py_error + nat) [] =
     ([], Inl KeyboardInterrupt)"
proof -
  have "create_vector_store (\<lambda>documents. Inr (length documents)) [] = ([], Inr (Some 0))"
    using create_vector_store_returns_none_on_failure
            [of "\<lambda>documents :: document list. Inr (length documents)" "[]"]
    by simp
  moreover have "create_vector_store (\<lambda>documents. Inl TypeError :: py_error + nat) [] =
     ([FaissInitError TypeError], Inr None)"
    using create_vector_store_returns_none_on_failure
            [of "\<lambda>documents. Inl TypeError :: py_error + nat" "[]"]
    by simp
  moreover have "create_vector_store (\<lambda>documents. Inl KeyboardInterrupt :: py_error + nat) [] =
     ([], Inl KeyboardInterrupt)"
    using create_vector_store_returns_none_on_failure
            [of "\<lambda>documents. Inl KeyboardInterrupt :: py_error + nat" "[]"]
    by simp
  ultimately show ?thesis by blast
qed

text \<open>A build that raises an \<open>Exception\<close>: the caller gets \<open>None\<close>, and no exception.\<close>

theorem create_vector_store_swallows_failure:
  "create_vector_store
     (\<lambda>documents. Inl (OtherException ''index build failed'') :: py_error + nat) [] =
     ([FaissInitError (OtherException ''index build failed'')], Inr None)"
  by (simp add: create_vector_store_def)

end
